theory Spec2Isabelle
  imports Complex_Main
begin

section \<open>Floorplan hotspot overlay: data model\<close>

text \<open>
  The repository holds near-duplicate browser scripts. Two of them are embedded here:
  the clean variant (walkarounds/2025.07.29/index.js, first script) and the variant of
  walkarounds/2025.08.05/index.js, whose page-load listener is the same code as the one
  of the second script of the 2025.07.29 file. Functions of the 2025.08.05 variant whose
  names clash with the clean variant carry the suffix \<open>_0805\<close>.

  A JavaScript number that the scripts read (a coordinate, a width, a wheel delta) is a
  real: finite doubles are reals. The product that places a marker is rounded as the
  machine rounds it, to the nearest double with ties to even (\<open>to_double\<close>); it can
  also be an infinity, or \<open>NaN\<close> when the coordinate is absent. The arithmetic of the
  zoom handler is over the reals, its result being clamped between two constants.

  The scripts are event driven. Every listener and callback is a function from state to
  state; what the browser does between them (a fetch settling, an animation frame, a
  timeout coming due, an image loading) is a function of its own. The state holds the
  scripts' variables, the parts of the document they read and write, and what they leave
  for the browser: pending fetches, queued frame callbacks, pending timeouts, registered
  listeners. Not modelled: \<open>console.log\<close>, \<open>preventDefault\<close>, and what the viewer
  library does with a scene beyond holding its view. The elements other than the
  floorplan image are taken to exist, and an array in hotspots.json to hold objects
  whose x and y are numbers and whose photo and filename are strings, where present.
\<close>

datatype jsnum = Num real | PosInf | NegInf | NaN

text \<open>An entry of hotspots.json: every field may be absent (\<open>undefined\<close> when read).\<close>

record hotspot =
  hp_x :: "real option"
  hp_y :: "real option"
  hp_photo :: "string option"
  hp_filename :: "string option"

text \<open>The closure installed as click listener of a marker.\<close>

datatype click_k =
    GuardedLoad  \<comment> \<open>\<open>() => { if (hp.photo) loadScene(hp.photo); }\<close> of renderDots\<close>
  | PlainLoad    \<comment> \<open>\<open>() => loadScene(dot.photo)\<close> of initDots, inside the closure\<close>
  | GlobalLoad   \<comment> \<open>\<open>() => loadScene(dot.photo)\<close> of the page-load listener, outside it\<close>

text \<open>A marker element of class \<open>dot\<close>: \<open>el_left\<close> is the number written into
  \<open>style.left\<close> before the unit \<open>px\<close>.\<close>

record marker =
  el_left :: jsnum
  el_top :: jsnum
  el_title :: string
  el_hp :: hotspot
  el_click :: click_k

text \<open>The floorplan image element as the scripts read it.\<close>

record img =
  img_complete :: bool
  rect_width :: real
  rect_height :: real
  naturalWidth :: real
  naturalHeight :: real

text \<open>Modelled from the spec: the view object of the external viewer library, a holder
  of \<open>{yaw, pitch, fov}\<close> whose \<open>fov()\<close> reads and whose \<open>setParameters\<close> writes the
  field.\<close>

record view =
  v_yaw :: real
  v_pitch :: real
  v_fov :: real

datatype notice =
    MarzipanoMissing   \<comment> \<open>alert: Marzipano library is not loaded\<close>
  | HotspotsFailed     \<comment> \<open>alert: Failed to load hotspots.json\<close>
  | FloorplanMissing   \<comment> \<open>alert: Floorplan image (#floorplan) not found in HTML\<close>
  | FloorplanFailed    \<comment> \<open>alert: Floorplan image failed to load\<close>

datatype listener =
    WheelL | ToggleL | ResizeL | WindowLoadL
  | FloorplanLoadOnce | FloorplanErrorOnce | FloorplanLoadL

text \<open>The parsed body of a response, and the outcome of a fetch.\<close>

datatype json = JArr "hotspot list" | JObj | JNum real | JStr string | JBool bool | JNull

datatype body = Malformed | Parsed json

datatype response = NetworkError | Http bool body  \<comment> \<open>\<open>res.ok\<close> and what \<open>res.json()\<close> gives\<close>

text \<open>An in-flight fetch, named by the promise chain attached to it.\<close>

datatype fetch_k =
    LoadHotspots           \<comment> \<open>loadHotspots of the clean variant\<close>
  | LoadHotspots0805       \<comment> \<open>loadHotspots of the 2025.08.05 variant\<close>
  | ReadyFetch real real   \<comment> \<open>the fetch of drawDotsWhenReady, with the captured rect\<close>

record state =
  marzipano :: bool                \<comment> \<open>\<open>typeof Marzipano !== 'undefined'\<close>\<close>
  floorplan :: "img option"        \<comment> \<open>\<open>document.getElementById('floorplan')\<close>\<close>
  listeners :: "listener list"
  viewer_made :: bool              \<comment> \<open>\<open>new Marzipano.Viewer(panoElement)\<close> has run\<close>
  display :: string                \<comment> \<open>\<open>mapPanel.style.display\<close>\<close>
  currentView :: "view option"
  hotspotsData :: "hotspot list"
  dots :: "marker list"            \<comment> \<open>the elements of class \<open>dot\<close>, in document order\<close>
  alerts :: "notice list"
  console_warn :: "string list"
  console_error :: "string list"
  pending :: "fetch_k list"        \<comment> \<open>fetches issued and not yet settled\<close>
  unhandled :: "string list"       \<comment> \<open>uncaught exceptions and unhandled rejections\<close>
  scenes :: "string option list"   \<comment> \<open>the arguments of the loadScene calls so far\<close>
  raf :: nat                       \<comment> \<open>queued requestAnimationFrame callbacks\<close>
  clock :: nat                     \<comment> \<open>milliseconds\<close>
  timers :: "(nat \<times> nat) list"     \<comment> \<open>pending timeouts: identifier and due time\<close>
  next_timer :: nat
  resizeTimer :: "nat option"
  redraw_log :: "nat list"         \<comment> \<open>observation trace: when drawDotsSafely ran\<close>

section \<open>JavaScript coercions used by the scripts\<close>

text \<open>\<open>a || b\<close> on two numbers.\<close>

definition or_num :: "real \<Rightarrow> real \<Rightarrow> real" where
  "or_num a b = (if a = 0 then b else a)"

text \<open>\<open>v || 0\<close> where \<open>v\<close> is a number or undefined.\<close>

definition or_zero :: "real option \<Rightarrow> real" where
  "or_zero v = (case v of None \<Rightarrow> 0 | Some a \<Rightarrow> or_num a 0)"

text \<open>Double arithmetic. \<open>bits n\<close> is the number of binary digits of \<open>n\<close>,
  \<open>floor_log2 r\<close> the exponent of the power of two at or below a positive \<open>r\<close>,
  \<open>pow2 e\<close> that power. \<open>to_double r\<close> is the double nearest to \<open>r\<close>: 53 binary
  digits at the exponent of \<open>r\<close>, not below the exponent -1074 of the subnormal numbers,
  ties to the even digit, and an infinity from 2 to the 1024 on. The two zeros are not
  told apart: both print as 0.\<close>

fun bits :: "nat \<Rightarrow> nat" where
  "bits n = (if n = 0 then 0 else Suc (bits (n div 2)))"

declare bits.simps [simp del]

definition floor_log2 :: "real \<Rightarrow> int" where
  "floor_log2 r =
     (if 1 \<le> r then int (bits (nat \<lfloor>r\<rfloor>)) - 1
      else - int (bits (nat (\<lceil>1 / r\<rceil> - 1))))"

definition pow2 :: "int \<Rightarrow> real" where
  "pow2 e = (if 0 \<le> e then 2 ^ nat e else 1 / 2 ^ nat (- e))"

definition round_half_even :: "real \<Rightarrow> int" where
  "round_half_even q =
     (let f = \<lfloor>q\<rfloor>; d = q - of_int f
      in if d < 1 / 2 then f
         else if 1 / 2 < d then f + 1
         else if even f then f else f + 1)"

definition to_double :: "real \<Rightarrow> jsnum" where
  "to_double r =
     (if r = 0 then Num 0
      else (let e = max (floor_log2 \<bar>r\<bar> - 52) (- 1074);
                v = of_int (round_half_even (r / pow2 e)) * pow2 e
            in if 2 ^ 1024 \<le> v then PosInf
               else if v \<le> - (2 ^ 1024) then NegInf
               else Num v))"

text \<open>\<open>a * b\<close> on two numbers.\<close>

definition js_times :: "real \<Rightarrow> real \<Rightarrow> jsnum" where
  "js_times a b = to_double (a * b)"

text \<open>\<open>v * w\<close> where \<open>v\<close> is a number or undefined.\<close>

definition times_num :: "real option \<Rightarrow> real \<Rightarrow> jsnum" where
  "times_num v w = (case v of None \<Rightarrow> NaN | Some a \<Rightarrow> js_times a w)"

text \<open>Truthiness of a string or undefined.\<close>

definition truthy :: "string option \<Rightarrow> bool" where
  "truthy v = (case v of None \<Rightarrow> False | Some t \<Rightarrow> t \<noteq> [])"

fun show_nat :: "nat \<Rightarrow> string" where
  "show_nat n =
     (if n < 10 then [char_of (48 + n)]
      else show_nat (n div 10) @ [char_of (48 + n mod 10)])"

declare show_nat.simps [simp del]

text \<open>\<open>hp.filename || `Scene ${index + 1}`\<close>\<close>

definition dot_title :: "hotspot \<Rightarrow> nat \<Rightarrow> string" where
  "dot_title hp index =
     (if truthy (hp_filename hp) then the (hp_filename hp)
      else ''Scene '' @ show_nat (index + 1))"

section \<open>Viewer adapter (the same code in both variants)\<close>

definition loadScene :: "string option \<Rightarrow> state \<Rightarrow> state" where
  "loadScene imagePath s =
     s\<lparr>scenes := scenes s @ [imagePath],
       currentView := Some \<lparr>v_yaw = 0, v_pitch = 0, v_fov = 1.2\<rparr>\<rparr>"

definition wheel :: "real \<Rightarrow> state \<Rightarrow> state" where
  "wheel deltaY s =
     (case currentView s of
        None \<Rightarrow> s
      | Some cv \<Rightarrow>
          (let delta = deltaY;
               fov = v_fov cv;
               zoomFactor = 0.004;
               newFov = fov + delta * zoomFactor;
               clampedFov = max 0.4 (min newFov 1.5)
           in s\<lparr>currentView := Some (cv\<lparr>v_fov := clampedFov\<rparr>)\<rparr>))"

text \<open>A sequence of wheel events, oldest first.\<close>

fun wheels :: "real list \<Rightarrow> state \<Rightarrow> state" where
  "wheels [] s = s"
| "wheels (d # ds) s = wheels ds (wheel d s)"

section \<open>Clean variant: dot renderer\<close>

definition renderDots :: "hotspot list \<Rightarrow> state \<Rightarrow> state" where
  "renderDots hotspots s =
     (case floorplan s of
        None \<Rightarrow> s\<lparr>console_error := console_error s @ [''Floorplan image not found.'']\<rparr>
      | Some fp \<Rightarrow>
          (let width = or_num (rect_width fp) (naturalWidth fp);
               height = or_num (rect_height fp) (naturalHeight fp)
           in s\<lparr>dots := dots s @
                  map (\<lambda>(index, hp).
                         \<lparr>el_left = js_times (or_zero (hp_x hp)) width,
                          el_top = js_times (or_zero (hp_y hp)) height,
                          el_title = dot_title hp index,
                          el_hp = hp,
                          el_click = GuardedLoad\<rparr>)
                      (enumerate 0 hotspots)\<rparr>))"

definition drawDotsSafely :: "state \<Rightarrow> state" where
  "drawDotsSafely s =
     renderDots (hotspotsData s) (s\<lparr>dots := [], redraw_log := redraw_log s @ [clock s]\<rparr>)"

text \<open>Clicking a marker runs the closure installed on it. The global name
  \<open>loadScene\<close> is not defined in the 2025.08.05 variant, so the closure of the page-load
  listener throws there.\<close>

definition click_dot :: "marker \<Rightarrow> state \<Rightarrow> state" where
  "click_dot el s =
     (case el_click el of
        GuardedLoad \<Rightarrow>
          (if truthy (hp_photo (el_hp el)) then loadScene (hp_photo (el_hp el)) s else s)
      | PlainLoad \<Rightarrow> loadScene (hp_photo (el_hp el)) s
      | GlobalLoad \<Rightarrow> s\<lparr>unhandled := unhandled s @ [''ReferenceError'']\<rparr>)"

section \<open>Clean variant: hotspot loader, map panel controller, resize\<close>

text \<open>\<open>loadHotspots\<close> issues the fetch; the promise chain runs when it settles.\<close>

definition loadHotspots :: "state \<Rightarrow> state" where
  "loadHotspots s = s\<lparr>pending := pending s @ [LoadHotspots]\<rparr>"

text \<open>The \<open>.catch\<close> handler of both loaders.\<close>

definition load_failed :: "string \<Rightarrow> state \<Rightarrow> state" where
  "load_failed err s =
     s\<lparr>alerts := alerts s @ [HotspotsFailed], console_error := console_error s @ [err]\<rparr>"

definition loadHotspots_settled :: "response \<Rightarrow> state \<Rightarrow> state" where
  "loadHotspots_settled res s =
     (case res of
        NetworkError \<Rightarrow> load_failed ''TypeError'' s
      | Http ok b \<Rightarrow>
          (if \<not> ok then load_failed ''Error'' s
           else (case b of
                   Malformed \<Rightarrow> load_failed ''SyntaxError'' s
                 | Parsed hotspots \<Rightarrow>
                     drawDotsSafely
                       (s\<lparr>hotspotsData :=
                            (case hotspots of JArr hs \<Rightarrow> hs | _ \<Rightarrow> [])\<rparr>))))"

definition toggle_click :: "state \<Rightarrow> state" where
  "toggle_click s =
     (let isVisible = (display s = ''block'');
          s1 = s\<lparr>display := (if isVisible then ''none'' else ''block'')\<rparr>
      in if \<not> isVisible
         then (if hotspotsData s1 \<noteq> [] then drawDotsSafely s1 else loadHotspots s1)
         else s1)"

text \<open>Timeouts. The only callback the clean variant ever schedules is drawDotsSafely.\<close>

definition clearTimeout :: "nat option \<Rightarrow> state \<Rightarrow> state" where
  "clearTimeout t s =
     (case t of
        None \<Rightarrow> s
      | Some i \<Rightarrow> s\<lparr>timers := filter (\<lambda>p. fst p \<noteq> i) (timers s)\<rparr>)"

definition setTimeout :: "nat \<Rightarrow> state \<Rightarrow> nat \<times> state" where
  "setTimeout delay s =
     (next_timer s,
      s\<lparr>timers := timers s @ [(next_timer s, clock s + delay)],
        next_timer := next_timer s + 1\<rparr>)"

definition on_resize :: "state \<Rightarrow> state" where
  "on_resize s =
     (if hotspotsData s = [] then s
      else (let s1 = clearTimeout (resizeTimer s) s;
                (i, s2) = setTimeout 100 s1
            in s2\<lparr>resizeTimer := Some i\<rparr>))"

text \<open>The event loop's timer phase: the pending timeout that is due first, the earlier
  registration on a tie.\<close>

fun next_due :: "nat \<Rightarrow> (nat \<times> nat) list \<Rightarrow> (nat \<times> nat) option" where
  "next_due t [] = None"
| "next_due t (p # ps) =
     (case next_due t ps of
        None \<Rightarrow> (if snd p \<le> t then Some p else None)
      | Some q \<Rightarrow> (if snd p \<le> snd q then Some p else Some q))"

lemma next_due_mem: "next_due t ps = Some p \<Longrightarrow> p \<in> set ps"
  by (induction ps arbitrary: p) (auto split: option.splits if_splits)

lemma next_due_le: "next_due t ps = Some p \<Longrightarrow> snd p \<le> t"
  by (induction ps arbitrary: p) (auto split: option.splits if_splits)

lemma remove1_shorter: "p \<in> set ps \<Longrightarrow> length (remove1 p ps) < length ps"
  using length_pos_if_in_set [of p ps] by (simp add: length_remove1)

lemma timers_renderDots: "timers (renderDots hs s) = timers s"
  by (simp add: renderDots_def Let_def split: option.splits)

lemma timers_drawDotsSafely: "timers (drawDotsSafely s) = timers s"
  by (simp add: drawDotsSafely_def timers_renderDots)

text \<open>Time passes until \<open>t\<close>: every timeout due by then runs, at its due time.\<close>

function advance :: "nat \<Rightarrow> state \<Rightarrow> state" where
  "advance t s =
     (case next_due t (timers s) of
        None \<Rightarrow> s\<lparr>clock := max (clock s) t\<rparr>
      | Some p \<Rightarrow>
          advance t
            (drawDotsSafely
               (s\<lparr>timers := remove1 p (timers s), clock := max (clock s) (snd p)\<rparr>)))"
  by pat_completeness auto
termination
proof (relation "measure (\<lambda>(t, s). length (timers s))")
  show "wf (measure (\<lambda>(t, s). length (timers s)))"
    by simp
next
  fix t :: nat and s :: state and p :: "nat \<times> nat"
  assume "next_due t (timers s) = Some p"
  then have "p \<in> set (timers s)"
    by (rule next_due_mem)
  then have "length (remove1 p (timers s)) < length (timers s)"
    by (simp add: remove1_shorter)
  then show "((t, drawDotsSafely
                    (s\<lparr>timers := remove1 p (timers s), clock := max (clock s) (snd p)\<rparr>)),
              (t, s)) \<in> measure (\<lambda>(t, s). length (timers s))"
    by (simp add: timers_drawDotsSafely)
qed

declare advance.simps [simp del]

text \<open>The window is resized: the layout gives the floorplan element, if there is one, new
  measures, and the resize listener runs.\<close>

definition relayout :: "img \<Rightarrow> state \<Rightarrow> state" where
  "relayout fp s = (case floorplan s of None \<Rightarrow> s | Some old \<Rightarrow> s\<lparr>floorplan := Some fp\<rparr>)"

definition resize :: "img \<Rightarrow> state \<Rightarrow> state" where
  "resize fp s = on_resize (relayout fp s)"

text \<open>Further resize events: each comes \<open>g\<close> milliseconds after the one before it and
  leaves the floorplan with the measures \<open>fp\<close>.\<close>

fun burst :: "(nat \<times> img) list \<Rightarrow> state \<Rightarrow> state" where
  "burst [] s = s"
| "burst ((g, fp) # evs) s = burst evs (resize fp (advance (clock s + g) s))"

text \<open>\<open>armed\<close>: exactly one timeout is pending, it is due 100 ms from now and
  \<open>resizeTimer\<close> names it. \<open>stale_only\<close>: every pending timeout is the one that
  \<open>resizeTimer\<close> names; the resize handler and the passing of time keep it.\<close>

definition armed :: "state \<Rightarrow> bool" where
  "armed s = (\<exists>i. timers s = [(i, clock s + 100)] \<and> resizeTimer s = Some i)"

definition stale_only :: "state \<Rightarrow> bool" where
  "stale_only s = (\<forall>p \<in> set (timers s). resizeTimer s = Some (fst p))"

text \<open>The initialisation of the clean variant: the whole closure body.\<close>

definition ensureDots :: "state \<Rightarrow> state" where
  "ensureDots s = (if hotspotsData s = [] then loadHotspots s else drawDotsSafely s)"

definition init :: "state \<Rightarrow> state" where
  "init s =
     (if \<not> marzipano s then s\<lparr>alerts := alerts s @ [MarzipanoMissing]\<rparr>
      else
        (let s1 = s\<lparr>viewer_made := True, currentView := None, hotspotsData := [],
                     listeners := listeners s @ [WheelL, ToggleL, ResizeL],
                     resizeTimer := None, display := ''block''\<rparr>
         in case floorplan s1 of
              None \<Rightarrow> s1\<lparr>unhandled := unhandled s1 @ [''TypeError'']\<rparr>
            | Some fp \<Rightarrow>
                (if img_complete fp \<and> naturalWidth fp \<noteq> 0 then ensureDots s1
                 else s1\<lparr>listeners :=
                            listeners s1 @ [FloorplanLoadOnce, FloorplanErrorOnce]\<rparr>)))"

section \<open>The 2025.08.05 variant\<close>

text \<open>\<open>initDots\<close> runs inside a promise chain: what it throws is a value here. Reading
  the rect of an absent floorplan throws, and so does \<open>forEach\<close> on a value that is
  not an array.\<close>

definition initDots :: "json \<Rightarrow> state \<Rightarrow> string + state" where
  "initDots hotspots s =
     (case floorplan s of
        None \<Rightarrow> Inl ''TypeError''
      | Some fp \<Rightarrow>
          (let width = or_num (rect_width fp) (naturalWidth fp);
               height = or_num (rect_height fp) (naturalHeight fp)
           in case hotspots of
                JArr hs \<Rightarrow>
                  Inr (s\<lparr>dots := dots s @
                         map (\<lambda>(index, dot).
                                \<lparr>el_left = times_num (hp_x dot) width,
                                 el_top = times_num (hp_y dot) height,
                                 el_title = dot_title dot index,
                                 el_hp = dot,
                                 el_click = PlainLoad\<rparr>)
                             (enumerate 0 hs)\<rparr>)
              | _ \<Rightarrow> Inl ''TypeError''))"

definition loadHotspots_0805 :: "state \<Rightarrow> state" where
  "loadHotspots_0805 s = s\<lparr>pending := pending s @ [LoadHotspots0805]\<rparr>"

definition loadHotspots_0805_settled :: "response \<Rightarrow> state \<Rightarrow> state" where
  "loadHotspots_0805_settled res s =
     (case res of
        NetworkError \<Rightarrow> load_failed ''TypeError'' s
      | Http ok b \<Rightarrow>
          (if \<not> ok then load_failed ''Error'' s
           else (case b of
                   Malformed \<Rightarrow> load_failed ''SyntaxError'' s
                 | Parsed hotspots \<Rightarrow>
                     (case initDots hotspots s of
                        Inl err \<Rightarrow> load_failed err s
                      | Inr s' \<Rightarrow> s'))))"

definition drawDotsSafely_0805 :: "state \<Rightarrow> state" where
  "drawDotsSafely_0805 s = loadHotspots_0805 (s\<lparr>dots := []\<rparr>)"

definition toggle_click_0805 :: "state \<Rightarrow> state" where
  "toggle_click_0805 s =
     (let isVisible = (display s = ''block'');
          s1 = s\<lparr>display := (if isVisible then ''none'' else ''block'')\<rparr>
      in if \<not> isVisible then s1\<lparr>raf := raf s1 + 1\<rparr> else s1)"

text \<open>The callback the toggle hands to requestAnimationFrame. Registering the same
  function twice for the image's load event leaves one registration.\<close>

definition frame_callback :: "state \<Rightarrow> state" where
  "frame_callback s =
     (case floorplan s of
        None \<Rightarrow> s\<lparr>alerts := alerts s @ [FloorplanMissing]\<rparr>
      | Some fp \<Rightarrow>
          (if img_complete fp then drawDotsSafely_0805 s
           else s\<lparr>listeners := (if FloorplanLoadL \<in> set (listeners s) then listeners s
                                else listeners s @ [FloorplanLoadL])\<rparr>))"

text \<open>The next animation frame: every queued callback runs.\<close>

definition animation_frame :: "state \<Rightarrow> state" where
  "animation_frame s = (frame_callback ^^ raf s) (s\<lparr>raf := 0\<rparr>)"

text \<open>The page-load listener, registered outside the closure. It reads the floorplan
  element of the state; reading the rect of an absent element throws, and nothing catches
  it. A timeout of 100 ms is the clock advanced by 100, and \<open>fp_at t\<close> is what the
  element has become at time \<open>t\<close>.\<close>

definition fullyRendered :: "img \<Rightarrow> bool" where
  "fullyRendered fp = (img_complete fp \<and> rect_width fp > 0 \<and> rect_height fp > 0)"

definition never_rendered :: string where
  "never_rendered = ''Failed to draw dots: floorplan image never rendered properly.''"

fun drawDotsWhenReady :: "(nat \<Rightarrow> img) \<Rightarrow> nat \<Rightarrow> state \<Rightarrow> state" where
  "drawDotsWhenReady fp_at retries s =
     (case floorplan s of
        None \<Rightarrow> s\<lparr>unhandled := unhandled s @ [''TypeError'']\<rparr>
      | Some fp \<Rightarrow>
          (if fullyRendered fp
           then s\<lparr>dots := [],
                  pending := pending s @ [ReadyFetch (rect_width fp) (rect_height fp)]\<rparr>
           else if retries > 0
           then drawDotsWhenReady fp_at (retries - 1)
                  (s\<lparr>clock := clock s + 100, floorplan := Some (fp_at (clock s + 100))\<rparr>)
           else s\<lparr>console_warn := console_warn s @ [never_rendered]\<rparr>))"

declare drawDotsWhenReady.simps [simp del]

definition ready_fetch_settled :: "real \<Rightarrow> real \<Rightarrow> response \<Rightarrow> state \<Rightarrow> state" where
  "ready_fetch_settled width height res s =
     (case res of
        NetworkError \<Rightarrow> s\<lparr>unhandled := unhandled s @ [''TypeError'']\<rparr>
      | Http ok b \<Rightarrow>
          (case b of
             Malformed \<Rightarrow> s\<lparr>unhandled := unhandled s @ [''SyntaxError'']\<rparr>
           | Parsed hotspots \<Rightarrow>
               (case hotspots of
                  JArr hs \<Rightarrow>
                    s\<lparr>dots := dots s @
                         map (\<lambda>(index, dot).
                                \<lparr>el_left = times_num (hp_x dot) width,
                                 el_top = times_num (hp_y dot) height,
                                 el_title = dot_title dot index,
                                 el_hp = dot,
                                 el_click = GlobalLoad\<rparr>)
                             (enumerate 0 hs)\<rparr>
                | _ \<Rightarrow> s\<lparr>unhandled := unhandled s @ [''TypeError'']\<rparr>)))"

definition on_window_load :: "(nat \<Rightarrow> img) \<Rightarrow> state \<Rightarrow> state" where
  "on_window_load fp_at s = drawDotsWhenReady fp_at 10 (s\<lparr>display := ''block''\<rparr>)"

text \<open>The whole script of the 2025.08.05 variant: the closure, then the registration of
  the page-load listener.\<close>

definition closure_0805 :: "state \<Rightarrow> state" where
  "closure_0805 s =
     (if \<not> marzipano s then s\<lparr>alerts := alerts s @ [MarzipanoMissing]\<rparr>
      else s\<lparr>viewer_made := True, currentView := None,
             listeners := listeners s @ [WheelL, ToggleL]\<rparr>)"

definition init_0805 :: "state \<Rightarrow> state" where
  "init_0805 s = (let s1 = closure_0805 s in s1\<lparr>listeners := listeners s1 @ [WindowLoadL]\<rparr>)"

section \<open>Events delivered by the browser\<close>

text \<open>A fetch settles: the chain attached to the \<open>i\<close>-th pending request runs.\<close>

definition fetch_settled :: "nat \<Rightarrow> response \<Rightarrow> state \<Rightarrow> state" where
  "fetch_settled i res s =
     (if i < length (pending s)
      then (let s1 = s\<lparr>pending := take i (pending s) @ drop (Suc i) (pending s)\<rparr>
            in case pending s ! i of
                 LoadHotspots \<Rightarrow> loadHotspots_settled res s1
               | LoadHotspots0805 \<Rightarrow> loadHotspots_0805_settled res s1
               | ReadyFetch w h \<Rightarrow> ready_fetch_settled w h res s1)
      else s)"

text \<open>The page's load event reaches the listener only if it was registered.\<close>

definition window_load :: "(nat \<Rightarrow> img) \<Rightarrow> state \<Rightarrow> state" where
  "window_load fp_at s = (if WindowLoadL \<in> set (listeners s) then on_window_load fp_at s else s)"


text \<open>The floorplan image fails to load.\<close>

definition floorplan_error :: "state \<Rightarrow> state" where
  "floorplan_error s =
     (if FloorplanErrorOnce \<in> set (listeners s)
      then s\<lparr>listeners := removeAll FloorplanErrorOnce (listeners s),
             alerts := alerts s @ [FloorplanFailed]\<rparr>
      else s)"

text \<open>A page before any script has run.\<close>

definition page :: "bool \<Rightarrow> img option \<Rightarrow> state" where
  "page lib fp =
     \<lparr>marzipano = lib, floorplan = fp, listeners = [], viewer_made = False,
      display = [], currentView = None, hotspotsData = [], dots = [], alerts = [],
      console_warn = [], console_error = [], pending = [], unhandled = [], scenes = [],
      raf = 0, clock = 0, timers = [], next_timer = 0, resizeTimer = None,
      redraw_log = []\<rparr>"

text \<open>Inputs used in the examples: a floorplan shown at 200 by 100 pixels, the same
  image while its panel is hidden (the rendered box is empty), and two hotspots.\<close>

definition plan_200x100 :: img where
  "plan_200x100 =
     \<lparr>img_complete = True, rect_width = 200, rect_height = 100,
      naturalWidth = 800, naturalHeight = 400\<rparr>"

definition plan_hidden :: img where
  "plan_hidden =
     \<lparr>img_complete = True, rect_width = 0, rect_height = 0,
      naturalWidth = 800, naturalHeight = 400\<rparr>"

definition plan_400x200 :: img where
  "plan_400x200 =
     \<lparr>img_complete = True, rect_width = 400, rect_height = 200,
      naturalWidth = 800, naturalHeight = 400\<rparr>"

definition centre :: hotspot where
  "centre = \<lparr>hp_x = Some 0.5, hp_y = Some 0.5, hp_photo = Some ''a.jpg'', hp_filename = None\<rparr>"

definition no_photo :: hotspot where
  "no_photo = \<lparr>hp_x = Some 0.25, hp_y = Some 0.75, hp_photo = None, hp_filename = None\<rparr>"

definition plan_loading :: img where
  "plan_loading =
     \<lparr>img_complete = False, rect_width = 200, rect_height = 100,
      naturalWidth = 0, naturalHeight = 0\<rparr>"

definition ok_one :: response where
  "ok_one = Http True (Parsed (JArr [centre]))"

definition not_found :: response where
  "not_found = Http False Malformed"

text \<open>A load that fails: no response, a status that is not OK, or a body that does not
  parse. \<open>isArray\<close> is \<open>Array.isArray\<close>.\<close>

fun failing :: "response \<Rightarrow> bool" where
  "failing NetworkError = True"
| "failing (Http ok b) = (\<not> ok \<or> b = Malformed)"

fun isArray :: "json \<Rightarrow> bool" where
  "isArray (JArr hs) = True"
| "isArray _ = False"

text \<open>A hotspot whose x is the double written 0.1, and a floorplan shown at 3 by 7
  pixels.\<close>

definition tenth :: hotspot where
  "tenth = \<lparr>hp_x = Some (3602879701896397 / 2 ^ 55), hp_y = Some 0.5,
             hp_photo = Some ''b.jpg'', hp_filename = None\<rparr>"

definition plan_3x7 :: img where
  "plan_3x7 =
     \<lparr>img_complete = True, rect_width = 3, rect_height = 7,
      naturalWidth = 3, naturalHeight = 7\<rparr>"

text \<open>Marker lists written out, for the statements below: what the clean renderer
  makes of a hotspot list on a floorplan, and what the renderers of the 2025.08.05
  variant make of it with a given click closure, width and height.\<close>

abbreviation rendered :: "img \<Rightarrow> hotspot list \<Rightarrow> marker list" where
  "rendered fp hs \<equiv>
     map (\<lambda>(index, hp).
            \<lparr>el_left = js_times (or_zero (hp_x hp)) (or_num (rect_width fp) (naturalWidth fp)),
             el_top = js_times (or_zero (hp_y hp)) (or_num (rect_height fp) (naturalHeight fp)),
             el_title = dot_title hp index, el_hp = hp, el_click = GuardedLoad\<rparr>)
         (enumerate 0 hs)"


section \<open>Manual zoom\<close>

lemma wheel_active:
  "currentView s = Some cv \<Longrightarrow>
   currentView (wheel d s) = Some (cv\<lparr>v_fov := max 0.4 (min (v_fov cv + d * 0.004) 1.5)\<rparr>)"
  by (simp add: wheel_def Let_def)

lemma wheels_in_range:
  "currentView s = Some cv \<Longrightarrow> 0.4 \<le> v_fov cv \<Longrightarrow> v_fov cv \<le> 1.5 \<Longrightarrow>
   \<exists>v. currentView (wheels ds s) = Some v \<and> 0.4 \<le> v_fov v \<and> v_fov v \<le> 1.5"
proof (induction ds arbitrary: s cv)
  case Nil
  then show ?case by simp
next
  case (Cons d ds)
  let ?cv = "cv\<lparr>v_fov := max 0.4 (min (v_fov cv + d * 0.004) 1.5)\<rparr>"
  have "currentView (wheel d s) = Some ?cv"
    using Cons.prems(1) by (rule wheel_active)
  moreover have "0.4 \<le> v_fov ?cv" and "v_fov ?cv \<le> 1.5"
    by (simp_all add: max_def min_def)
  ultimately show ?case
    using Cons.IH [of "wheel d s" ?cv] by simp
qed

text \<open>
  Claim C2. A scene load leaves a view of fov 1.2. A wheel event on an active view stores
  the fov plus 0.004 times the wheel delta, clamped to the interval from 0.4 to 1.5. So
  after every wheel event of any sequence of deltas that follows a scene load, the
  active view's fov lies in that interval.
\<close>

theorem zoom_clamp:
  "currentView (loadScene p s) = Some \<lparr>v_yaw = 0, v_pitch = 0, v_fov = 1.2\<rparr> \<and>
   (\<forall>cv (t::state) d. currentView t = Some cv \<longrightarrow>
      currentView (wheel d t) =
        Some (cv\<lparr>v_fov := max 0.4 (min (v_fov cv + d * 0.004) 1.5)\<rparr>)) \<and>
   (\<forall>k \<le> length ds. \<exists>v. currentView (wheels (take k ds) (loadScene p s)) = Some v \<and>
      0.4 \<le> v_fov v \<and> v_fov v \<le> 1.5)"
proof (intro conjI allI impI)
  show "currentView (loadScene p s) = Some \<lparr>v_yaw = 0, v_pitch = 0, v_fov = 1.2\<rparr>"
    by (simp add: loadScene_def)
next
  fix cv and t :: state and d
  assume "currentView t = Some cv"
  then show "currentView (wheel d t) =
    Some (cv\<lparr>v_fov := max 0.4 (min (v_fov cv + d * 0.004) 1.5)\<rparr>)"
    by (rule wheel_active)
next
  fix k
  assume "k \<le> length ds"
  have "currentView (loadScene p s) = Some \<lparr>v_yaw = 0, v_pitch = 0, v_fov = 1.2\<rparr>"
    by (simp add: loadScene_def)
  then show "\<exists>v. currentView (wheels (take k ds) (loadScene p s)) = Some v \<and>
      0.4 \<le> v_fov v \<and> v_fov v \<le> 1.5"
    by (rule wheels_in_range) simp_all
qed

theorem zoom_clamp_witness:
  "(3::nat) \<le> length [1000, -5000, 30::real] \<and>
   (\<exists>v. currentView (wheels [1000, -5000, 30] (loadScene (Some ''a.jpg'') (page True None)))
          = Some v \<and> 0.4 \<le> v_fov v \<and> v_fov v \<le> 1.5) \<and>
   currentView (wheels [1000, -5000, 30] (loadScene (Some ''a.jpg'') (page True None)))
     = Some \<lparr>v_yaw = 0, v_pitch = 0, v_fov = 0.52\<rparr>"
proof -
  have k: "(3::nat) \<le> length [1000, -5000, 30::real]"
    by simp
  have "\<forall>k \<le> length [1000, -5000, 30::real].
      \<exists>v. currentView (wheels (take k [1000, -5000, 30])
             (loadScene (Some ''a.jpg'') (page True None))) = Some v \<and>
          0.4 \<le> v_fov v \<and> v_fov v \<le> 1.5"
    using zoom_clamp [of "Some ''a.jpg''" "page True None" "[1000, -5000, 30]"] by blast
  with k have "\<exists>v. currentView (wheels (take 3 [1000, -5000, 30])
             (loadScene (Some ''a.jpg'') (page True None))) = Some v \<and>
          0.4 \<le> v_fov v \<and> v_fov v \<le> 1.5"
    by blast
  then have a: "\<exists>v. currentView (wheels [1000, -5000, 30]
             (loadScene (Some ''a.jpg'') (page True None))) = Some v \<and>
          0.4 \<le> v_fov v \<and> v_fov v \<le> 1.5"
    by simp
  have b: "currentView (wheels [1000, -5000, 30] (loadScene (Some ''a.jpg'') (page True None)))
     = Some \<lparr>v_yaw = 0, v_pitch = 0, v_fov = 0.52\<rparr>"
    by (simp add: loadScene_def page_def wheel_def Let_def)
  from k a b show ?thesis
    by (intro conjI)
qed

section \<open>Clicking a marker\<close>

text \<open>
  Claim C10. In the clean variant, a click on a marker whose hotspot has no truthy photo
  leaves the whole state as it was: no scene load is recorded and the current view is
  the one before the click. A click on a marker with a truthy photo is exactly the scene
  load of that photo.
\<close>

theorem clean_click_guard:
  assumes "el \<in> set (dots (drawDotsSafely s))"
  shows "el_hp el \<in> set (hotspotsData s) \<and>
         (if truthy (hp_photo (el_hp el))
          then click_dot el t = loadScene (hp_photo (el_hp el)) t
          else click_dot el t = t)"
proof (cases "floorplan s")
  case None
  with assms show ?thesis
    by (simp add: drawDotsSafely_def renderDots_def)
next
  case (Some fp)
  with assms have "el_click el = GuardedLoad" and "el_hp el \<in> set (hotspotsData s)"
    by (auto simp: drawDotsSafely_def renderDots_def Let_def in_set_enumerate_eq)
  then show ?thesis
    by (simp add: click_dot_def)
qed

theorem clean_click_guard_witness:
  "click_dot (hd (dots (drawDotsSafely
       ((page True (Some plan_200x100))\<lparr>hotspotsData := [no_photo]\<rparr>))))
     (loadScene (Some ''a.jpg'') (page True (Some plan_200x100)))
   = loadScene (Some ''a.jpg'') (page True (Some plan_200x100))"
proof -
  let ?s = "(page True (Some plan_200x100))\<lparr>hotspotsData := [no_photo]\<rparr>"
  have el: "hd (dots (drawDotsSafely ?s)) \<in> set (dots (drawDotsSafely ?s))"
    by (simp add: drawDotsSafely_def renderDots_def page_def Let_def enumerate_eq_zip)
  have "\<not> truthy (hp_photo (el_hp (hd (dots (drawDotsSafely ?s)))))"
    by (simp add: drawDotsSafely_def renderDots_def page_def Let_def enumerate_eq_zip
        no_photo_def truthy_def)
  with clean_click_guard [OF el] show ?thesis
    by simp
qed

section \<open>Redraw\<close>

text \<open>In the clean variant a redraw is synchronous: it empties the marker list and
  renders the cached data, so a second redraw leaves the markers of the first.\<close>

lemma redraw_idempotent_clean:
  "dots (drawDotsSafely (drawDotsSafely s)) = dots (drawDotsSafely s) \<and>
   length (dots (drawDotsSafely s)) = (if floorplan s = None then 0 else length (hotspotsData s))"
  by (simp add: drawDotsSafely_def renderDots_def Let_def split: option.splits)

text \<open>In the 2025.08.05 variant a redraw empties the marker list and issues a fetch; the
  markers are appended when the fetch settles. Two redraws, each settled before the next
  starts, leave the markers of one.\<close>

lemma redraw_sequential_0805:
  assumes "floorplan s = Some fp" and "pending s = []"
  shows "length (dots (fetch_settled 0 (Http True (Parsed (JArr hs)))
           (drawDotsSafely_0805 (fetch_settled 0 (Http True (Parsed (JArr hs)))
             (drawDotsSafely_0805 s))))) = length hs"
  using assms
  by (simp add: fetch_settled_def drawDotsSafely_0805_def loadHotspots_0805_def
      loadHotspots_0805_settled_def initDots_def Let_def)

text \<open>
  Claim C3 asks that two redraws in succession leave as many markers as one. In the
  2025.08.05 variant, two redraws issued before the first fetch settles leave twice as
  many: one redraw of a one-hotspot file leaves 1 marker, two leave 2, also when the two
  redraws come from the toggle being clicked to show, hide and show the panel.
\<close>

theorem redraw_0805_accumulates:
  "length (dots (fetch_settled 0 ok_one
      (drawDotsSafely_0805 (page True (Some plan_200x100))))) = 1 \<and>
   length (dots (fetch_settled 0 ok_one (fetch_settled 0 ok_one
      (drawDotsSafely_0805 (drawDotsSafely_0805 (page True (Some plan_200x100))))))) = 2 \<and>
   length (dots (fetch_settled 0 ok_one (fetch_settled 0 ok_one
      (animation_frame (toggle_click_0805 (toggle_click_0805
        (animation_frame (toggle_click_0805
          (init_0805 (page True (Some plan_200x100))))))))))) = 2"
  by (simp add: fetch_settled_def drawDotsSafely_0805_def loadHotspots_0805_def
      loadHotspots_0805_settled_def initDots_def Let_def page_def plan_200x100_def ok_one_def
      animation_frame_def toggle_click_0805_def init_0805_def closure_0805_def
      frame_callback_def enumerate_eq_zip)

section \<open>Failing loads\<close>

text \<open>Both \<open>loadHotspots\<close> functions end every failing load in their \<open>.catch\<close>
  handler: one notification, the cached data and the markers as they were, nothing
  unhandled.\<close>

lemma loader_failure_handled:
  assumes "failing res"
  shows "loadHotspots_settled res s = load_failed (case res of NetworkError \<Rightarrow> ''TypeError''
            | Http ok b \<Rightarrow> if \<not> ok then ''Error'' else ''SyntaxError'') s"
    and "loadHotspots_0805_settled res s = load_failed (case res of NetworkError \<Rightarrow> ''TypeError''
            | Http ok b \<Rightarrow> if \<not> ok then ''Error'' else ''SyntaxError'') s"
    and "alerts (load_failed e s) = alerts s @ [HotspotsFailed]"
    and "hotspotsData (load_failed e s) = hotspotsData s"
    and "dots (load_failed e s) = dots s"
    and "unhandled (load_failed e s) = unhandled s"
  using assms
  by (cases res; simp add: loadHotspots_settled_def loadHotspots_0805_settled_def load_failed_def)+

text \<open>
  Claim C4 asks the same of every failing load. The fetch of the page-load listener
  (drawDotsWhenReady) has no status check and no \<open>.catch\<close>: with the floorplan ready, a
  404 with a body that is not JSON, or a network error, shows no notification and ends
  as an unhandled rejection.
\<close>

theorem load_listener_failure_unhandled:
  "pending (window_load (\<lambda>t. plan_200x100) (init_0805 (page True (Some plan_200x100))))
     = [ReadyFetch 200 100] \<and>
   alerts (fetch_settled 0 not_found
     (window_load (\<lambda>t. plan_200x100) (init_0805 (page True (Some plan_200x100))))) = [] \<and>
   unhandled (fetch_settled 0 not_found
     (window_load (\<lambda>t. plan_200x100) (init_0805 (page True (Some plan_200x100)))))
     = [''SyntaxError''] \<and>
   alerts (fetch_settled 0 NetworkError
     (window_load (\<lambda>t. plan_200x100) (init_0805 (page True (Some plan_200x100))))) = [] \<and>
   unhandled (fetch_settled 0 NetworkError
     (window_load (\<lambda>t. plan_200x100) (init_0805 (page True (Some plan_200x100)))))
     = [''TypeError'']"
  by (simp add: fetch_settled_def window_load_def on_window_load_def init_0805_def
      closure_0805_def page_def plan_200x100_def not_found_def ready_fetch_settled_def
      drawDotsWhenReady.simps fullyRendered_def Let_def)

section \<open>Missing viewer library\<close>

text \<open>In the clean variant the guard covers the whole script: without the library the
  only effect is the notification, and no listener is registered.\<close>

lemma init_without_library:
  "\<not> marzipano s \<Longrightarrow> init s = s\<lparr>alerts := alerts s @ [MarzipanoMissing]\<rparr>"
  by (simp add: init_def)

text \<open>
  Claim C7 asks that nothing else is initialised once the library is found missing. In
  the 2025.08.05 variant the page-load listener is registered outside the guarded
  closure: after the notification (and with no viewer constructed) the page's load event
  still shows the panel, issues the hotspot fetch and draws its markers.
\<close>

theorem load_listener_without_library:
  "alerts (init_0805 (page False (Some plan_200x100))) = [MarzipanoMissing] \<and>
   viewer_made (init_0805 (page False (Some plan_200x100))) = False \<and>
   listeners (init_0805 (page False (Some plan_200x100))) = [WindowLoadL] \<and>
   pending (window_load (\<lambda>t. plan_200x100) (init_0805 (page False (Some plan_200x100))))
     = [ReadyFetch 200 100] \<and>
   display (window_load (\<lambda>t. plan_200x100) (init_0805 (page False (Some plan_200x100))))
     = ''block'' \<and>
   length (dots (fetch_settled 0 ok_one
     (window_load (\<lambda>t. plan_200x100) (init_0805 (page False (Some plan_200x100)))))) = 1"
  by (simp add: fetch_settled_def window_load_def on_window_load_def init_0805_def
      closure_0805_def page_def plan_200x100_def ok_one_def ready_fetch_settled_def
      drawDotsWhenReady.simps fullyRendered_def Let_def enumerate_eq_zip)

section \<open>Double arithmetic\<close>

text \<open>Products as the scripts compute them. The double written 0.1 is
  3602879701896397 / 2^55; three times it is not a double, and the product is the
  neighbour above, which prints as 0.30000000000000004.\<close>

lemma double_product_examples:
  "js_times 0.5 200 = Num 100"
  "js_times 0.5 100 = Num 50"
  "js_times 0.5 800 = Num 400"
  "js_times 0.5 400 = Num 200"
  "js_times (3602879701896397 / 2 ^ 55) 3 = Num (5404319552844596 / 2 ^ 54)"
  "js_times (5404319552844595 / 2 ^ 54) 7 = Num (4728779608739021 / 2 ^ 51)"
  "to_double (1 / 10) = Num (3602879701896397 / 2 ^ 55)"
  by (simp_all add: js_times_def to_double_def floor_log2_def pow2_def bits.simps Let_def
      round_half_even_def)

section \<open>Marker positions\<close>

lemma or_zero_Some: "or_zero (Some a) = a"
  by (simp add: or_zero_def or_num_def)

lemma or_num_if: "or_num a b = (if a \<noteq> 0 then a else b)"
  by (simp add: or_num_def)

lemma dots_renderDots:
  "floorplan s = Some fp \<Longrightarrow> dots (renderDots hs s) = dots s @ rendered fp hs"
  by (simp add: renderDots_def Let_def)

lemma dots_initDots:
  "floorplan s = Some fp \<Longrightarrow>
   \<exists>s'. initDots (JArr hs) s = Inr s' \<and> dots s' = dots s @
     map (\<lambda>(index, hp).
            \<lparr>el_left = times_num (hp_x hp) (or_num (rect_width fp) (naturalWidth fp)),
             el_top = times_num (hp_y hp) (or_num (rect_height fp) (naturalHeight fp)),
             el_title = dot_title hp index, el_hp = hp, el_click = PlainLoad\<rparr>)
         (enumerate 0 hs)"
  by (simp add: initDots_def Let_def)

text \<open>
  Claim C1, as amended. For a hotspot with x and y in [0,1], the marker that renderDots
  (clean variant) and initDots (2025.08.05 variant) create for it has the offset
  (x * W, y * H) as double arithmetic gives the two products: each is the double nearest
  to the product of the real numbers, the even one on a tie. W is the width of the
  floorplan's rendered box when that is not zero and the image's natural width otherwise,
  and H likewise for the height.
\<close>

theorem marker_position:
  assumes "floorplan s = Some fp" and "i < length hs"
    and "hp_x (hs ! i) = Some x" and "hp_y (hs ! i) = Some y"
    and "0 \<le> x" and "x \<le> 1" and "0 \<le> y" and "y \<le> 1"
  shows "let W = (if rect_width fp \<noteq> 0 then rect_width fp else naturalWidth fp);
             H = (if rect_height fp \<noteq> 0 then rect_height fp else naturalHeight fp)
         in (let el = dots (renderDots hs s) ! (length (dots s) + i)
             in el_left el = to_double (x * W) \<and> el_top el = to_double (y * H)) \<and>
            (\<exists>s'. initDots (JArr hs) s = Inr s' \<and>
               (let el = dots s' ! (length (dots s) + i)
                in el_left el = to_double (x * W) \<and> el_top el = to_double (y * H)))"
proof -
  have en: "enumerate 0 hs ! i = (i, hs ! i)"
    using assms(2) by (simp add: nth_enumerate_eq)
  have len: "i < length (enumerate 0 hs)"
    using assms(2) by simp
  have clean: "dots (renderDots hs s) ! (length (dots s) + i) =
      \<lparr>el_left = js_times x (or_num (rect_width fp) (naturalWidth fp)),
       el_top = js_times y (or_num (rect_height fp) (naturalHeight fp)),
       el_title = dot_title (hs ! i) i, el_hp = hs ! i, el_click = GuardedLoad\<rparr>"
    using assms(3,4) len
    by (simp add: dots_renderDots [OF assms(1)] en or_zero_Some del: length_enumerate)
  obtain s' where s': "initDots (JArr hs) s = Inr s'"
    and d': "dots s' = dots s @
     map (\<lambda>(index, hp).
            \<lparr>el_left = times_num (hp_x hp) (or_num (rect_width fp) (naturalWidth fp)),
             el_top = times_num (hp_y hp) (or_num (rect_height fp) (naturalHeight fp)),
             el_title = dot_title hp index, el_hp = hp, el_click = PlainLoad\<rparr>)
         (enumerate 0 hs)"
    using dots_initDots [OF assms(1)] by blast
  have old: "dots s' ! (length (dots s) + i) =
      \<lparr>el_left = js_times x (or_num (rect_width fp) (naturalWidth fp)),
       el_top = js_times y (or_num (rect_height fp) (naturalHeight fp)),
       el_title = dot_title (hs ! i) i, el_hp = hs ! i, el_click = PlainLoad\<rparr>"
    using assms(3,4) len
    by (simp add: d' en times_num_def del: length_enumerate)
  show ?thesis
    using clean old s' by (simp add: Let_def or_num_if js_times_def)
qed

theorem marker_position_witness:
  "(let el = dots (renderDots [centre] (page True (Some plan_200x100))) ! 0
    in el_left el = Num 100 \<and> el_top el = Num 50) \<and>
   (\<exists>s'. initDots (JArr [centre]) (page True (Some plan_200x100)) = Inr s' \<and>
      (let el = dots s' ! 0 in el_left el = Num 100 \<and> el_top el = Num 50)) \<and>
   (let el = dots (renderDots [tenth] (page True (Some plan_3x7))) ! 0
    in el_left el = Num (5404319552844596 / 2 ^ 54) \<and> el_top el = Num (7 / 2)) \<and>
   (\<exists>s'. initDots (JArr [tenth]) (page True (Some plan_3x7)) = Inr s' \<and>
      (let el = dots s' ! 0
       in el_left el = Num (5404319552844596 / 2 ^ 54) \<and> el_top el = Num (7 / 2)))"
proof -
  have f: "floorplan (page True (Some plan_200x100)) = Some plan_200x100"
    and g: "floorplan (page True (Some plan_3x7)) = Some plan_3x7"
    by (simp_all add: page_def)
  have a: "to_double (0.5 * 200) = Num 100" and b: "to_double (0.5 * 100) = Num 50"
    using double_product_examples(1,2) by (simp_all add: js_times_def)
  have c: "to_double (3602879701896397 / 2 ^ 55 * 3) = Num (5404319552844596 / 2 ^ 54)"
    using double_product_examples(5) by (simp add: js_times_def)
  have d: "to_double (0.5 * 7) = Num (7 / 2)"
    by (simp add: to_double_def floor_log2_def pow2_def bits.simps Let_def
        round_half_even_def)
  have first: "(let el = dots (renderDots [centre] (page True (Some plan_200x100))) ! 0
    in el_left el = Num 100 \<and> el_top el = Num 50) \<and>
   (\<exists>s'. initDots (JArr [centre]) (page True (Some plan_200x100)) = Inr s' \<and>
      (let el = dots s' ! 0 in el_left el = Num 100 \<and> el_top el = Num 50))"
    using marker_position [OF f, of 0 "[centre]" "0.5" "0.5"] a b
    by (simp add: centre_def plan_200x100_def page_def Let_def)
  have second: "(let el = dots (renderDots [tenth] (page True (Some plan_3x7))) ! 0
    in el_left el = Num (5404319552844596 / 2 ^ 54) \<and> el_top el = Num (7 / 2)) \<and>
   (\<exists>s'. initDots (JArr [tenth]) (page True (Some plan_3x7)) = Inr s' \<and>
      (let el = dots s' ! 0
       in el_left el = Num (5404319552844596 / 2 ^ 54) \<and> el_top el = Num (7 / 2)))"
    using marker_position [OF g, of 0 "[tenth]" "3602879701896397 / 2 ^ 55" "0.5"] c d
    by (simp add: tenth_def plan_3x7_def page_def Let_def)
  from first second show ?thesis
    by simp
qed

text \<open>
  The claim as stated places the marker at exactly (x * W, y * H) for the width W and
  height H of the current bounding box. With the panel hidden the box is 0 by 0 and the
  renderer uses the natural size 800 by 400: the marker of the hotspot (0.5, 0.5) is at
  (400, 200), not at (0, 0). And on a box 3 wide the marker of the hotspot whose x is the
  double 0.1 is not at three times that number: the product is rounded.
\<close>

theorem marker_position_counterexample:
  "el_left (dots (renderDots [centre] (page True (Some plan_hidden))) ! 0) = Num 400 \<and>
   el_top (dots (renderDots [centre] (page True (Some plan_hidden))) ! 0) = Num 200 \<and>
   js_times 0.5 (rect_width plan_hidden) = Num 0 \<and>
   el_left (dots (renderDots [centre] (page True (Some plan_hidden))) ! 0)
     \<noteq> js_times 0.5 (rect_width plan_hidden) \<and>
   el_left (dots (renderDots [tenth] (page True (Some plan_3x7))) ! 0)
     = Num (10808639105689192 / 2 ^ 55) \<and>
   the (hp_x tenth) * rect_width plan_3x7 = 10808639105689191 / 2 ^ 55 \<and>
   el_left (dots (renderDots [tenth] (page True (Some plan_3x7))) ! 0)
     \<noteq> Num (the (hp_x tenth) * rect_width plan_3x7)"
proof -
  have z: "js_times 0.5 0 = Num 0"
    by (simp add: js_times_def to_double_def)
  have box: "el_left (dots (renderDots [centre] (page True (Some plan_hidden))) ! 0) = Num 400 \<and>
   el_top (dots (renderDots [centre] (page True (Some plan_hidden))) ! 0) = Num 200 \<and>
   js_times 0.5 (rect_width plan_hidden) = Num 0 \<and>
   el_left (dots (renderDots [centre] (page True (Some plan_hidden))) ! 0)
     \<noteq> js_times 0.5 (rect_width plan_hidden)"
    using double_product_examples(3,4) z
    by (simp add: renderDots_def page_def plan_hidden_def centre_def Let_def
        or_zero_def or_num_def enumerate_eq_zip)
  have l: "el_left (dots (renderDots [tenth] (page True (Some plan_3x7))) ! 0)
      = Num (5404319552844596 / 2 ^ 54)"
    using double_product_examples(5)
    by (simp add: renderDots_def page_def plan_3x7_def tenth_def Let_def
        or_zero_def or_num_def enumerate_eq_zip)
  have e: "(5404319552844596 / 2 ^ 54 :: real) = 10808639105689192 / 2 ^ 55"
    by simp
  have p: "the (hp_x tenth) * rect_width plan_3x7 = 10808639105689191 / 2 ^ 55"
    by (simp add: tenth_def plan_3x7_def)
  have n: "(10808639105689192 / 2 ^ 55 :: real) \<noteq> 10808639105689191 / 2 ^ 55"
    by simp
  show ?thesis
    using box n unfolding l p e by simp
qed

text \<open>The empty box is reachable: the clean variant loads one hotspot on a floorplan shown
  at 200 by 100, the panel is closed, the window is resized (the box of the hidden image
  is empty) and the debounce delay passes. The marker is then placed by the natural
  size.\<close>

lemma hidden_resize_uses_natural_size:
  "map el_left (dots (fetch_settled 0 ok_one (init (page True (Some plan_200x100)))))
     = [Num 100] \<and>
   map el_left (dots (advance 100 (resize plan_hidden
      (toggle_click (fetch_settled 0 ok_one (init (page True (Some plan_200x100))))))))
     = [Num 400]"
proof -
  have a: "js_times (1 / 2) 200 = Num 100" and b: "js_times (1 / 2) 800 = Num 400"
    using double_product_examples(1,3) by simp_all
  show ?thesis
    by (simp add: fetch_settled_def init_def ensureDots_def loadHotspots_def
        loadHotspots_settled_def drawDotsSafely_def renderDots_def toggle_click_def
        resize_def relayout_def on_resize_def clearTimeout_def setTimeout_def advance.simps
        page_def plan_200x100_def plan_hidden_def ok_one_def centre_def
        or_zero_def or_num_def Let_def enumerate_eq_zip a b)
qed

section \<open>Polling for the floorplan at page load\<close>

text \<open>On a page without the floorplan element the first check throws, and nothing
  catches it.\<close>

lemma poll_absent_floorplan:
  "floorplan s = None \<Longrightarrow>
   drawDotsWhenReady fp_at n s = s\<lparr>unhandled := unhandled s @ [''TypeError'']\<rparr>"
  by (simp add: drawDotsWhenReady.simps [of fp_at n s])

lemma state_same_clock_floorplan:
  "floorplan s = Some fp \<Longrightarrow> s\<lparr>clock := clock s, floorplan := Some fp\<rparr> = s"
proof -
  assume "floorplan s = Some fp"
  then have "s\<lparr>clock := clock s, floorplan := Some fp\<rparr>
      = s\<lparr>clock := clock s, floorplan := floorplan s\<rparr>"
    by simp
  then show ?thesis
    by simp
qed

lemma poll_ready_at:
  assumes "floorplan s = Some fp0" and "k \<le> n"
    and "\<forall>j < k. \<not> fullyRendered (if j = 0 then fp0 else fp_at (clock s + 100 * j))"
    and "fullyRendered (if k = 0 then fp0 else fp_at (clock s + 100 * k))"
  shows "drawDotsWhenReady fp_at n s =
     s\<lparr>clock := clock s + 100 * k,
       floorplan := Some (if k = 0 then fp0 else fp_at (clock s + 100 * k)),
       dots := [],
       pending := pending s @
         [ReadyFetch (rect_width (if k = 0 then fp0 else fp_at (clock s + 100 * k)))
                     (rect_height (if k = 0 then fp0 else fp_at (clock s + 100 * k)))]\<rparr>"
  using assms
proof (induction k arbitrary: s fp0 n)
  case 0
  then have r: "fullyRendered fp0"
    by simp
  have "drawDotsWhenReady fp_at n s =
      s\<lparr>dots := [], pending := pending s @ [ReadyFetch (rect_width fp0) (rect_height fp0)]\<rparr>"
    using "0.prems"(1) r by (simp add: drawDotsWhenReady.simps [of fp_at n s])
  also have "\<dots> = (s\<lparr>clock := clock s, floorplan := Some fp0\<rparr>)
      \<lparr>dots := [], pending := pending s @ [ReadyFetch (rect_width fp0) (rect_height fp0)]\<rparr>"
    by (simp only: state_same_clock_floorplan [OF "0.prems"(1)])
  finally show ?case
    by simp
next
  case (Suc k)
  let ?s1 = "s\<lparr>clock := clock s + 100, floorplan := Some (fp_at (clock s + 100))\<rparr>"
  have not0: "\<not> fullyRendered fp0"
    using Suc.prems(3) [rule_format, of 0] by simp
  have pos: "0 < n" and kn: "k \<le> n - 1"
    using Suc.prems(2) by simp_all
  have step: "drawDotsWhenReady fp_at n s = drawDotsWhenReady fp_at (n - 1) ?s1"
    using Suc.prems(1) not0 pos by (simp add: drawDotsWhenReady.simps [of fp_at n s])
  have shift: "(if j = 0 then fp_at (clock s + 100) else fp_at (clock ?s1 + 100 * j))
      = fp_at (clock s + 100 * Suc j)" for j
    by (simp add: algebra_simps)
  have a: "\<forall>j < k. \<not> fullyRendered
      (if j = 0 then fp_at (clock s + 100) else fp_at (clock ?s1 + 100 * j))"
  proof (intro allI impI)
    fix j assume "j < k"
    then show "\<not> fullyRendered
      (if j = 0 then fp_at (clock s + 100) else fp_at (clock ?s1 + 100 * j))"
      using Suc.prems(3) [rule_format, of "Suc j"] by (simp only: shift) simp
  qed
  have b: "fullyRendered (if k = 0 then fp_at (clock s + 100) else fp_at (clock ?s1 + 100 * k))"
    using Suc.prems(4) by (simp only: shift) simp
  have f1: "floorplan ?s1 = Some (fp_at (clock s + 100))"
    by simp
  note ih = Suc.IH [OF f1 kn a b]
  show ?case
    unfolding step ih by (simp only: shift) (simp add: algebra_simps)
qed

lemma poll_gives_up:
  assumes "floorplan s = Some fp0"
    and "\<forall>j \<le> n. \<not> fullyRendered (if j = 0 then fp0 else fp_at (clock s + 100 * j))"
  shows "drawDotsWhenReady fp_at n s =
     s\<lparr>clock := clock s + 100 * n,
       floorplan := Some (if n = 0 then fp0 else fp_at (clock s + 100 * n)),
       console_warn := console_warn s @ [never_rendered]\<rparr>"
  using assms
proof (induction n arbitrary: s fp0)
  case 0
  then have r: "\<not> fullyRendered fp0"
    by simp
  have "drawDotsWhenReady fp_at 0 s = s\<lparr>console_warn := console_warn s @ [never_rendered]\<rparr>"
    using "0.prems"(1) r by (simp add: drawDotsWhenReady.simps [of fp_at 0 s])
  also have "\<dots> = (s\<lparr>clock := clock s, floorplan := Some fp0\<rparr>)
      \<lparr>console_warn := console_warn s @ [never_rendered]\<rparr>"
    by (simp only: state_same_clock_floorplan [OF "0.prems"(1)])
  finally show ?case
    by simp
next
  case (Suc n)
  let ?s1 = "s\<lparr>clock := clock s + 100, floorplan := Some (fp_at (clock s + 100))\<rparr>"
  have not0: "\<not> fullyRendered fp0"
    using Suc.prems(2) [rule_format, of 0] by simp
  have step: "drawDotsWhenReady fp_at (Suc n) s = drawDotsWhenReady fp_at n ?s1"
    using Suc.prems(1) not0 by (simp add: drawDotsWhenReady.simps [of fp_at "Suc n" s])
  have shift: "(if j = 0 then fp_at (clock s + 100) else fp_at (clock ?s1 + 100 * j))
      = fp_at (clock s + 100 * Suc j)" for j
    by (simp add: algebra_simps)
  have a: "\<forall>j \<le> n. \<not> fullyRendered
      (if j = 0 then fp_at (clock s + 100) else fp_at (clock ?s1 + 100 * j))"
  proof (intro allI impI)
    fix j assume "j \<le> n"
    then show "\<not> fullyRendered
      (if j = 0 then fp_at (clock s + 100) else fp_at (clock ?s1 + 100 * j))"
      using Suc.prems(2) [rule_format, of "Suc j"] by (simp only: shift) simp
  qed
  have f1: "floorplan ?s1 = Some (fp_at (clock s + 100))"
    by simp
  note ih = Suc.IH [OF f1 a]
  show ?case
    unfolding step ih by (simp only: shift) (simp add: algebra_simps)
qed

text \<open>
  Claim C5. drawDotsWhenReady, called with its 10 retries on a page that has the
  floorplan element, checks the element at once and then every 100 ms, 11 checks at most,
  each reading the element as it is at that time. If check k (k from 0 to 10) is the first
  to find the image complete with a box of positive width and height, the polling ends
  there, 100 * k ms after the call: the markers are removed and one fetch is issued with
  that box, and nothing else changes. If none of the 11 checks finds it so, the polling
  ends 1000 ms after the call with exactly one console warning: the markers, the
  notifications, the pending fetches and everything else are as they were. The function is
  total, so the polling ends in every case.
\<close>

theorem polling_terminates:
  assumes "floorplan s = Some fp0"
  shows "(\<forall>k \<le> 10.
            (\<forall>j < k. \<not> fullyRendered (if j = 0 then fp0 else fp_at (clock s + 100 * j))) \<and>
            fullyRendered (if k = 0 then fp0 else fp_at (clock s + 100 * k)) \<longrightarrow>
            drawDotsWhenReady fp_at 10 s =
              s\<lparr>clock := clock s + 100 * k,
                floorplan := Some (if k = 0 then fp0 else fp_at (clock s + 100 * k)),
                dots := [],
                pending := pending s @
                  [ReadyFetch (rect_width (if k = 0 then fp0 else fp_at (clock s + 100 * k)))
                              (rect_height (if k = 0 then fp0 else fp_at (clock s + 100 * k)))]\<rparr>) \<and>
         ((\<forall>j \<le> 10. \<not> fullyRendered (if j = 0 then fp0 else fp_at (clock s + 100 * j))) \<longrightarrow>
            drawDotsWhenReady fp_at 10 s =
              s\<lparr>clock := clock s + 1000,
                floorplan := Some (fp_at (clock s + 1000)),
                console_warn := console_warn s @ [never_rendered]\<rparr>)"
proof (intro conjI allI impI)
  fix k :: nat
  assume "k \<le> 10"
    and "(\<forall>j < k. \<not> fullyRendered (if j = 0 then fp0 else fp_at (clock s + 100 * j))) \<and>
            fullyRendered (if k = 0 then fp0 else fp_at (clock s + 100 * k))"
  then show "drawDotsWhenReady fp_at 10 s =
              s\<lparr>clock := clock s + 100 * k,
                floorplan := Some (if k = 0 then fp0 else fp_at (clock s + 100 * k)),
                dots := [],
                pending := pending s @
                  [ReadyFetch (rect_width (if k = 0 then fp0 else fp_at (clock s + 100 * k)))
                              (rect_height (if k = 0 then fp0 else fp_at (clock s + 100 * k)))]\<rparr>"
    using poll_ready_at [OF assms, of k 10 fp_at] by blast
next
  assume "\<forall>j \<le> 10. \<not> fullyRendered (if j = 0 then fp0 else fp_at (clock s + 100 * j))"
  then show "drawDotsWhenReady fp_at 10 s =
              s\<lparr>clock := clock s + 1000,
                floorplan := Some (fp_at (clock s + 1000)),
                console_warn := console_warn s @ [never_rendered]\<rparr>"
    using poll_gives_up [OF assms, of 10 fp_at] by simp
qed

theorem polling_terminates_witness:
  "drawDotsWhenReady (\<lambda>t. plan_hidden) 10 (page True (Some plan_hidden)) =
     (page True (Some plan_hidden))\<lparr>clock := 1000, console_warn := [never_rendered]\<rparr> \<and>
   drawDotsWhenReady (\<lambda>t. if t < 300 then plan_loading else plan_200x100) 10
       (page True (Some plan_loading)) =
     (page True (Some plan_200x100))\<lparr>clock := 300, pending := [ReadyFetch 200 100]\<rparr>"
proof -
  let ?p = "page True (Some plan_hidden)"
  let ?q = "page True (Some plan_loading)"
  let ?f = "\<lambda>t::nat. if t < 300 then plan_loading else plan_200x100"
  have fp: "floorplan ?p = Some plan_hidden" and fq: "floorplan ?q = Some plan_loading"
    by (simp_all add: page_def)
  have never: "\<forall>j \<le> 10. \<not> fullyRendered
      (if j = 0 then plan_hidden else (\<lambda>t. plan_hidden) (clock ?p + 100 * j))"
    by (simp add: fullyRendered_def plan_hidden_def)
  have "drawDotsWhenReady (\<lambda>t. plan_hidden) 10 ?p =
      ?p\<lparr>clock := clock ?p + 1000,
         floorplan := Some ((\<lambda>t. plan_hidden) (clock ?p + 1000)),
         console_warn := console_warn ?p @ [never_rendered]\<rparr>"
    using polling_terminates [OF fp, of "\<lambda>t. plan_hidden", THEN conjunct2] never by blast
  then have a: "drawDotsWhenReady (\<lambda>t. plan_hidden) 10 ?p =
      ?p\<lparr>clock := 1000, console_warn := [never_rendered]\<rparr>"
    by (simp add: page_def)
  have c: "clock ?q = 0"
    by (simp add: page_def)
  have nr: "\<not> fullyRendered plan_loading" and rd: "fullyRendered plan_200x100"
    by (simp_all add: fullyRendered_def plan_loading_def plan_200x100_def)
  have third: "(3::nat) \<le> 10"
    by simp
  have before: "\<forall>j < 3. \<not> fullyRendered
      (if j = 0 then plan_loading else ?f (clock ?q + 100 * j))"
  proof (intro allI impI)
    fix j :: nat assume "j < 3"
    then have "clock ?q + 100 * j < 300"
      by (simp add: c)
    then show "\<not> fullyRendered (if j = 0 then plan_loading else ?f (clock ?q + 100 * j))"
      by (simp add: nr)
  qed
  have at: "fullyRendered (if (3::nat) = 0 then plan_loading else ?f (clock ?q + 100 * 3))"
    by (simp add: c rd)
  have "drawDotsWhenReady ?f 10 ?q =
      ?q\<lparr>clock := clock ?q + 100 * 3,
         floorplan := Some (if (3::nat) = 0 then plan_loading else ?f (clock ?q + 100 * 3)),
         dots := [],
         pending := pending ?q @
           [ReadyFetch (rect_width (if (3::nat) = 0 then plan_loading else ?f (clock ?q + 100 * 3)))
                       (rect_height (if (3::nat) = 0 then plan_loading else ?f (clock ?q + 100 * 3)))]\<rparr>"
    using polling_terminates [OF fq, of ?f, THEN conjunct1, rule_format, OF third] before at
    by blast
  then have b: "drawDotsWhenReady ?f 10 ?q =
      (page True (Some plan_200x100))\<lparr>clock := 300, pending := [ReadyFetch 200 100]\<rparr>"
    by (simp add: page_def plan_200x100_def)
  from a b show ?thesis
    by (rule conjI)
qed

section \<open>Resize\<close>

lemma dots_drawDotsSafely:
  "floorplan s = Some fp \<Longrightarrow> dots (drawDotsSafely s) = rendered fp (hotspotsData s)"
  by (simp add: drawDotsSafely_def renderDots_def Let_def)

lemma on_resize_arms:
  assumes "hotspotsData s \<noteq> []" and "stale_only s"
  shows "armed (on_resize s) \<and> hotspotsData (on_resize s) = hotspotsData s \<and>
         clock (on_resize s) = clock s \<and> redraw_log (on_resize s) = redraw_log s \<and>
         dots (on_resize s) = dots s \<and> floorplan (on_resize s) = floorplan s"
proof (cases "resizeTimer s")
  case None
  with assms(2) have "timers s = []"
    by (cases "timers s") (auto simp: stale_only_def)
  with None assms(1) show ?thesis
    by (simp add: on_resize_def clearTimeout_def setTimeout_def armed_def)
next
  case (Some i)
  with assms(2) have "filter (\<lambda>p. fst p \<noteq> i) (timers s) = []"
    by (auto simp: stale_only_def filter_empty_conv)
  with Some assms(1) show ?thesis
    by (simp add: on_resize_def clearTimeout_def setTimeout_def armed_def)
qed

lemma armed_stale_only: "armed s \<Longrightarrow> stale_only s"
  by (auto simp: armed_def stale_only_def)

lemma relayout_present:
  "floorplan s = Some old \<Longrightarrow> relayout fp s = s\<lparr>floorplan := Some fp\<rparr>"
  by (simp add: relayout_def)

lemma resize_arms:
  assumes "hotspotsData s \<noteq> []" and "stale_only s" and "floorplan s = Some old"
  shows "armed (resize fp s) \<and> hotspotsData (resize fp s) = hotspotsData s \<and>
         clock (resize fp s) = clock s \<and> redraw_log (resize fp s) = redraw_log s \<and>
         dots (resize fp s) = dots s \<and> floorplan (resize fp s) = Some fp"
proof -
  let ?r = "s\<lparr>floorplan := Some fp\<rparr>"
  have "hotspotsData ?r \<noteq> []" and "stale_only ?r"
    using assms(1,2) by (simp_all add: stale_only_def)
  then have "armed (on_resize ?r) \<and> hotspotsData (on_resize ?r) = hotspotsData ?r \<and>
         clock (on_resize ?r) = clock ?r \<and> redraw_log (on_resize ?r) = redraw_log ?r \<and>
         dots (on_resize ?r) = dots ?r \<and> floorplan (on_resize ?r) = floorplan ?r"
    by (rule on_resize_arms)
  then show ?thesis
    by (simp add: resize_def relayout_present [OF assms(3)])
qed

lemma advance_early:
  assumes "armed s" and "t < clock s + 100"
  shows "advance t s = s\<lparr>clock := max (clock s) t\<rparr>"
proof -
  from assms(1) obtain i where "timers s = [(i, clock s + 100)]"
    by (auto simp: armed_def)
  with assms(2) show ?thesis
    by (simp add: advance.simps [of t s])
qed

lemma advance_fires:
  assumes "armed s" and "clock s + 100 \<le> t" and "floorplan s = Some fp"
  shows "redraw_log (advance t s) = redraw_log s @ [clock s + 100] \<and>
         timers (advance t s) = [] \<and> clock (advance t s) = t \<and>
         dots (advance t s) = rendered fp (hotspotsData s)"
proof -
  from assms(1) obtain i where ts: "timers s = [(i, clock s + 100)]"
    by (auto simp: armed_def)
  let ?s0 = "s\<lparr>timers := [], clock := clock s + 100\<rparr>"
  let ?s1 = "drawDotsSafely ?s0"
  have step: "advance t s = advance t ?s1"
    using ts assms(2) by (simp add: advance.simps [of t s])
  have t1: "timers ?s1 = []"
    by (simp add: timers_drawDotsSafely)
  have "advance t ?s1 = ?s1\<lparr>clock := max (clock ?s1) t\<rparr>"
    using t1 by (simp add: advance.simps [of t ?s1])
  with step have eq: "advance t s = ?s1\<lparr>clock := max (clock ?s1) t\<rparr>"
    by simp
  have c1: "clock ?s1 = clock s + 100" and r1: "redraw_log ?s1 = redraw_log s @ [clock s + 100]"
    by (simp_all add: drawDotsSafely_def renderDots_def Let_def split: option.splits)
  have "floorplan ?s0 = Some fp"
    using assms(3) by simp
  then have d1: "dots ?s1 = rendered fp (hotspotsData ?s0)"
    by (rule dots_drawDotsSafely)
  show ?thesis
    using assms(2) by (simp add: eq t1 c1 r1 d1 max_def)
qed

lemma burst_keeps_armed:
  assumes "hotspotsData s \<noteq> []" and "armed s" and "floorplan s = Some fp0"
    and "\<forall>e \<in> set evs. fst e < 100"
  shows "armed (burst evs s) \<and> hotspotsData (burst evs s) = hotspotsData s \<and>
         clock (burst evs s) = clock s + sum_list (map fst evs) \<and>
         redraw_log (burst evs s) = redraw_log s \<and> dots (burst evs s) = dots s \<and>
         floorplan (burst evs s) = Some (snd (last ((0, fp0) # evs)))"
  using assms
proof (induction evs arbitrary: s fp0)
  case Nil
  then show ?case by simp
next
  case (Cons e evs)
  obtain g fp where e: "e = (g, fp)"
    by (cases e)
  have g: "g < 100"
    using Cons.prems(4) e by simp
  let ?a = "advance (clock s + g) s"
  have a: "?a = s\<lparr>clock := clock s + g\<rparr>"
    using advance_early [OF Cons.prems(2), of "clock s + g"] g by (simp add: max_def)
  have "stale_only ?a"
    using armed_stale_only [OF Cons.prems(2)] by (simp add: a stale_only_def)
  moreover have "hotspotsData ?a \<noteq> []" and "floorplan ?a = Some fp0"
    using Cons.prems(1,3) by (simp_all add: a)
  ultimately have r: "armed (resize fp ?a) \<and> hotspotsData (resize fp ?a) = hotspotsData ?a \<and>
         clock (resize fp ?a) = clock ?a \<and> redraw_log (resize fp ?a) = redraw_log ?a \<and>
         dots (resize fp ?a) = dots ?a \<and> floorplan (resize fp ?a) = Some fp"
    by (intro resize_arms)
  have "armed (burst evs (resize fp ?a)) \<and>
        hotspotsData (burst evs (resize fp ?a)) = hotspotsData (resize fp ?a) \<and>
        clock (burst evs (resize fp ?a)) = clock (resize fp ?a) + sum_list (map fst evs) \<and>
        redraw_log (burst evs (resize fp ?a)) = redraw_log (resize fp ?a) \<and>
        dots (burst evs (resize fp ?a)) = dots (resize fp ?a) \<and>
        floorplan (burst evs (resize fp ?a)) = Some (snd (last ((0, fp) # evs)))"
    using r Cons.prems(1,4) by (intro Cons.IH) (simp_all add: a)
  with r show ?case
    by (simp add: a e)
qed

text \<open>
  Claim C9. In the clean variant, with hotspot data present, take a resize event and any
  further resize events each less than 100 ms after the one before it, each leaving the
  floorplan with measures of its own. After the last event exactly one timeout is
  pending, due 100 ms after that event (every earlier one was cancelled). Until then no
  redraw has run and the markers are the ones from before the burst. From then on
  exactly one redraw has run, at that time, no timeout is pending, and the markers are
  those of the hotspot data placed on the floorplan as the last event left it.
\<close>

theorem resize_debounced:
  assumes "hotspotsData s \<noteq> []" and "stale_only s" and "floorplan s = Some fp0"
    and "\<forall>e \<in> set evs. fst e < 100"
  shows "let t_last = clock s + sum_list (map fst evs);
             box = snd (last ((0, fp1) # evs));
             s' = burst evs (resize fp1 s)
         in timers s' = [(the (resizeTimer s'), t_last + 100)] \<and>
            (\<forall>t. t_last \<le> t \<and> t < t_last + 100 \<longrightarrow>
               redraw_log (advance t s') = redraw_log s \<and> dots (advance t s') = dots s) \<and>
            (\<forall>t. t_last + 100 \<le> t \<longrightarrow>
               redraw_log (advance t s') = redraw_log s @ [t_last + 100] \<and>
               timers (advance t s') = [] \<and>
               dots (advance t s') = rendered box (hotspotsData s))"
proof -
  let ?s' = "burst evs (resize fp1 s)"
  let ?last = "clock s + sum_list (map fst evs)"
  let ?box = "snd (last ((0, fp1) # evs))"
  have first: "armed (resize fp1 s) \<and> hotspotsData (resize fp1 s) = hotspotsData s \<and>
         clock (resize fp1 s) = clock s \<and> redraw_log (resize fp1 s) = redraw_log s \<and>
         dots (resize fp1 s) = dots s \<and> floorplan (resize fp1 s) = Some fp1"
    using assms(1,2,3) by (rule resize_arms)
  have b: "armed ?s' \<and> hotspotsData ?s' = hotspotsData (resize fp1 s) \<and>
         clock ?s' = clock (resize fp1 s) + sum_list (map fst evs) \<and>
         redraw_log ?s' = redraw_log (resize fp1 s) \<and> dots ?s' = dots (resize fp1 s) \<and>
         floorplan ?s' = Some ?box"
    using first assms(1,4) by (intro burst_keeps_armed) simp_all
  have c: "clock ?s' = ?last" and l: "redraw_log ?s' = redraw_log s"
    and ar: "armed ?s'" and d: "dots ?s' = dots s" and h: "hotspotsData ?s' = hotspotsData s"
    and f: "floorplan ?s' = Some ?box"
    using first b by simp_all
  have t1: "timers ?s' = [(the (resizeTimer ?s'), ?last + 100)]"
    using ar c by (auto simp: armed_def)
  have t2: "redraw_log (advance t ?s') = redraw_log s \<and> dots (advance t ?s') = dots s"
    if "?last \<le> t" and "t < ?last + 100" for t
    using advance_early [OF ar, of t] that l c d by simp
  have t3: "redraw_log (advance t ?s') = redraw_log s @ [?last + 100] \<and>
            timers (advance t ?s') = [] \<and>
            dots (advance t ?s') = rendered ?box (hotspotsData s)"
    if "?last + 100 \<le> t" for t
    using advance_fires [OF ar _ f, of t] that l c h by simp
  show ?thesis
    using t1 t2 t3 by (simp add: Let_def)
qed

theorem resize_debounced_witness:
  "redraw_log (advance 5200 (burst [(30, plan_200x100), (99, plan_hidden), (0, plan_400x200)]
      (resize plan_200x100
        ((page True (Some plan_200x100))\<lparr>hotspotsData := [centre], clock := 5000\<rparr>)))) = [] \<and>
   dots (advance 5200 (burst [(30, plan_200x100), (99, plan_hidden), (0, plan_400x200)]
      (resize plan_200x100
        ((page True (Some plan_200x100))\<lparr>hotspotsData := [centre], clock := 5000\<rparr>)))) = [] \<and>
   redraw_log (advance 6000 (burst [(30, plan_200x100), (99, plan_hidden), (0, plan_400x200)]
      (resize plan_200x100
        ((page True (Some plan_200x100))\<lparr>hotspotsData := [centre], clock := 5000\<rparr>)))) = [5229] \<and>
   map (\<lambda>el. (el_left el, el_top el))
     (dots (advance 6000 (burst [(30, plan_200x100), (99, plan_hidden), (0, plan_400x200)]
      (resize plan_200x100
        ((page True (Some plan_200x100))\<lparr>hotspotsData := [centre], clock := 5000\<rparr>)))))
     = [(Num 200, Num 100)]"
proof -
  let ?s = "(page True (Some plan_200x100))\<lparr>hotspotsData := [centre], clock := 5000\<rparr>"
  let ?evs = "[(30, plan_200x100), (99, plan_hidden), (0::nat, plan_400x200)]"
  let ?S = "burst ?evs (resize plan_200x100 ?s)"
  have h1: "hotspotsData ?s \<noteq> []"
    by simp
  have h2: "stale_only ?s"
    by (simp add: stale_only_def page_def)
  have h3: "floorplan ?s = Some plan_200x100"
    by (simp add: page_def)
  have h4: "\<forall>e \<in> set ?evs. fst e < 100"
    by simp
  have c: "clock ?s + sum_list (map fst ?evs) = 5129" and r: "redraw_log ?s = []"
    and d: "dots ?s = []" and b: "snd (last ((0, plan_200x100) # ?evs)) = plan_400x200"
    and hd: "hotspotsData ?s = [centre]"
    by (simp_all add: page_def)
  note t = resize_debounced [OF h1 h2 h3 h4, of plan_200x100, unfolded Let_def c r d b hd]
  from t have early: "redraw_log (advance 5200 ?S) = [] \<and> dots (advance 5200 ?S) = []"
    by (elim conjE allE [of _ 5200]) simp
  from t have late: "redraw_log (advance 6000 ?S) = [5229] \<and>
      dots (advance 6000 ?S) = rendered plan_400x200 [centre]"
    by (elim conjE allE [of _ 6000]) simp
  have v: "map (\<lambda>el. (el_left el, el_top el)) (rendered plan_400x200 [centre])
      = [(Num 200, Num 100)]"
    by (simp add: plan_400x200_def centre_def enumerate_eq_zip or_zero_def or_num_def
        js_times_def to_double_def floor_log2_def pow2_def bits.simps Let_def
        round_half_even_def)
  from early late v show ?thesis
    by simp
qed

text \<open>The hypothesis on the pending timeouts holds from the initialisation on.\<close>

lemma stale_only_init: "timers s = [] \<Longrightarrow> stale_only (init s)"
  by (simp add: stale_only_def init_def ensureDots_def loadHotspots_def timers_drawDotsSafely
      Let_def split: option.splits)

lemma stale_only_on_resize: "stale_only s \<Longrightarrow> stale_only (on_resize s)"
proof (cases "hotspotsData s = []")
  case True
  assume "stale_only s"
  with True show ?thesis by (simp add: on_resize_def)
next
  case False
  assume "stale_only s"
  with False have "armed (on_resize s)"
    using on_resize_arms by blast
  then show ?thesis by (rule armed_stale_only)
qed

lemma stale_only_resize: "stale_only s \<Longrightarrow> stale_only (resize fp s)"
proof -
  assume "stale_only s"
  then have "stale_only (relayout fp s)"
    by (simp add: relayout_def stale_only_def split: option.splits)
  then show ?thesis
    unfolding resize_def by (rule stale_only_on_resize)
qed

lemma stale_only_advance: "stale_only s \<Longrightarrow> stale_only (advance t s)"
proof (induction t s rule: advance.induct)
  case (1 t s)
  show ?case
  proof (cases "next_due t (timers s)")
    case None
    with "1.prems" show ?thesis
      by (simp add: advance.simps [of t s] stale_only_def)
  next
    case (Some p)
    let ?s1 = "drawDotsSafely (s\<lparr>timers := remove1 p (timers s), clock := max (clock s) (snd p)\<rparr>)"
    have "resizeTimer ?s1 = resizeTimer s"
      by (simp add: drawDotsSafely_def renderDots_def Let_def split: option.splits)
    moreover have "set (timers ?s1) \<subseteq> set (timers s)"
      by (simp add: timers_drawDotsSafely set_remove1_subset)
    ultimately have "stale_only ?s1"
      using "1.prems" by (auto simp: stale_only_def)
    with "1.IH" [OF Some] Some show ?thesis
      by (simp add: advance.simps [of t s])
  qed
qed

section \<open>Map panel\<close>




















lemma window_load_gives_up:
  assumes "floorplan s = Some fp0"
    and "\<forall>j \<le> 10. \<not> fullyRendered (if j = 0 then fp0 else fp_at (clock s + 100 * j))"
  shows "on_window_load fp_at s =
     s\<lparr>display := ''block'', clock := clock s + 1000,
       floorplan := Some (fp_at (clock s + 1000)),
       console_warn := console_warn s @ [never_rendered]\<rparr>"
proof -
  let ?t = "s\<lparr>display := ''block''\<rparr>"
  have f: "floorplan ?t = Some fp0"
    using assms(1) by simp
  have c: "clock ?t = clock s"
    by simp
  have a: "\<forall>j \<le> 10. \<not> fullyRendered (if j = 0 then fp0 else fp_at (clock ?t + 100 * j))"
    using assms(2) by (simp only: c)
  from poll_gives_up [OF f a] show ?thesis
    by (simp add: on_window_load_def)
qed




section \<open>A body that is not a sequence\<close>

lemma not_array_cases: "\<not> isArray j \<Longrightarrow> (case j of JArr hs \<Rightarrow> f hs | _ \<Rightarrow> c) = c"
  by (cases j) simp_all

text \<open>The loader of the clean variant coerces: a body that parses to anything but an
  array is stored as the empty sequence and drawn, with no marker, no notification and no
  error.\<close>

lemma clean_loader_coerces:
  assumes "\<not> isArray j"
  shows "loadHotspots_settled (Http True (Parsed j)) s = drawDotsSafely (s\<lparr>hotspotsData := []\<rparr>)"
    and "hotspotsData (loadHotspots_settled (Http True (Parsed j)) s) = []"
    and "dots (loadHotspots_settled (Http True (Parsed j)) s) = []"
    and "alerts (loadHotspots_settled (Http True (Parsed j)) s) = alerts s"
    and "unhandled (loadHotspots_settled (Http True (Parsed j)) s) = unhandled s"
proof -
  show a: "loadHotspots_settled (Http True (Parsed j)) s
      = drawDotsSafely (s\<lparr>hotspotsData := []\<rparr>)"
    using assms by (simp add: loadHotspots_settled_def not_array_cases)
  show "hotspotsData (loadHotspots_settled (Http True (Parsed j)) s) = []"
    and "dots (loadHotspots_settled (Http True (Parsed j)) s) = []"
    and "alerts (loadHotspots_settled (Http True (Parsed j)) s) = alerts s"
    and "unhandled (loadHotspots_settled (Http True (Parsed j)) s) = unhandled s"
    unfolding a
    by (simp_all add: drawDotsSafely_def renderDots_def Let_def split: option.splits)
qed

text \<open>The loader of the 2025.08.05 variant hands the parsed value to initDots as it is:
  \<open>forEach\<close> on a value that is not an array throws, the loader's handler catches it
  and shows the load-failure notification.\<close>

lemma loader_0805_does_not_coerce:
  assumes "\<not> isArray j"
  shows "loadHotspots_0805_settled (Http True (Parsed j)) s =
       s\<lparr>alerts := alerts s @ [HotspotsFailed],
         console_error := console_error s @ [''TypeError'']\<rparr>"
proof -
  have "initDots j s = Inl ''TypeError''"
    using assms by (simp add: initDots_def Let_def not_array_cases split: option.splits)
  then show ?thesis
    by (simp add: loadHotspots_0805_settled_def load_failed_def)
qed

text \<open>
  Claim C8. A successful fetch whose body parses to a JSON object: the loader of the clean
  variant stores the empty sequence, draws no marker and shows no notification; the
  loader of the 2025.08.05 variant shows the load-failure notification and logs the
  TypeError.
\<close>

theorem loader_0805_rejects_non_sequence:
  "hotspotsData (fetch_settled 0 (Http True (Parsed JObj))
      (loadHotspots ((page True (Some plan_200x100))\<lparr>hotspotsData := [centre]\<rparr>))) = [] \<and>
   dots (fetch_settled 0 (Http True (Parsed JObj))
      (loadHotspots ((page True (Some plan_200x100))\<lparr>hotspotsData := [centre]\<rparr>))) = [] \<and>
   alerts (fetch_settled 0 (Http True (Parsed JObj))
      (loadHotspots ((page True (Some plan_200x100))\<lparr>hotspotsData := [centre]\<rparr>))) = [] \<and>
   alerts (fetch_settled 0 (Http True (Parsed JObj))
      (drawDotsSafely_0805 (page True (Some plan_200x100)))) = [HotspotsFailed] \<and>
   console_error (fetch_settled 0 (Http True (Parsed JObj))
      (drawDotsSafely_0805 (page True (Some plan_200x100)))) = [''TypeError''] \<and>
   dots (fetch_settled 0 (Http True (Parsed JObj))
      (drawDotsSafely_0805 (page True (Some plan_200x100)))) = []"
  by (simp add: fetch_settled_def loadHotspots_def loadHotspots_settled_def
      drawDotsSafely_def renderDots_def drawDotsSafely_0805_def loadHotspots_0805_def
      loadHotspots_0805_settled_def initDots_def load_failed_def Let_def page_def)

end
